theory Spec2Isabelle
  imports Complex_Main "HOL-Library.Word" "HOL-Library.Signed_Division"
    "HOL-Library.List_Lexorder" "HOL-Library.Char_ord" "HOL-Library.Product_Lexorder"
begin

section \<open>Machine integers and floating point\<close>

text \<open>
  Go's \<open>int64\<close> is a 64-bit word read in two's complement: \<open>+\<close> and \<open>-\<close> wrap around,
  comparisons are the signed ones (\<open><s\<close>, \<open>\<le>s\<close>, i.e. on \<open>sint\<close>). Go's \<open>/\<close> and \<open>%\<close>
  truncate towards zero (the remainder takes the sign of the dividend); a zero divisor
  panics, which the callers below check before dividing.

  \<open>float64\<close> is modelled by \<open>real\<close>: rounding, infinities and NaN are outside the model.
  HOL's \<open>x / 0 = 0\<close> is not what IEEE 754 does, so every statement about a quotient
  carries the hypothesis that the divisor is not zero.
\<close>

type_synonym int64 = "64 word"
type_synonym uint64 = "64 word"
type_synonym float64 = real

definition rem64 :: "int64 \<Rightarrow> int64 \<Rightarrow> int64" where
  "rem64 a b = word_of_int (sint a smod sint b)"

definition quo64 :: "int64 \<Rightarrow> int64 \<Rightarrow> int64" where
  "quo64 a b = word_of_int (sint a sdiv sint b)"

datatype error =
    LateSpan int64
  | DivideByZero
  | CloseOfClosedChannel

section \<open>The data model\<close>

text \<open>
  Modelled from the spec: the package \<open>model\<close> (the span type and its method \<open>End\<close>) is not
  part of the sources at hand. The fields are those of section 3 of the specification and
  of the literals in \<open>sublayers_test.go\<close>; \<open>End = Start + Duration\<close>, in \<open>int64\<close>.
  A \<open>nil\<close> metrics map is \<open>None\<close>.
\<close>

record Span =
  TraceID :: uint64
  SpanID :: uint64
  ParentID :: uint64
  Service :: string
  Name :: string
  Resource :: string
  Type :: string
  Start :: int64
  Duration :: int64
  Env :: string
  Error :: bool
  Metrics :: "(string \<rightharpoonup> float64) option"

definition End :: "Span \<Rightarrow> int64" where
  "End s = Start s + Duration s"

text \<open>
  The fields of \<open>config.AgentConfig\<close> that the concentrator reads. \<open>BucketInterval\<close> is a
  \<open>time.Duration\<close>, whose \<open>Nanoseconds()\<close> is the \<open>int64\<close> it holds; \<open>OldestSpanCutoff\<close> is
  an \<open>int64\<close> of nanoseconds.
\<close>

record AgentConfig =
  BucketInterval :: int64
  OldestSpanCutoff :: int64
  ExtraAggregators :: "string list"
  DefaultEnv :: string

text \<open>
  \<open>model.StatsBucket\<close>, its constructor and its method \<open>HandleSpan\<close> are not part of the
  sources at hand either. The concentrator only stores, creates, updates and hands out
  buckets, so the bucket type is a parameter \<open>'b\<close> and the three operations the
  concentrator calls are taken as parameters: \<open>NewStatsBucket ts width\<close>,
  \<open>HandleSpan b s env aggregators\<close> (the bucket after it has aggregated the span), and
  \<open>DistributionLens b\<close> (the \<open>Summary.N\<close> of each distribution of the bucket, which
  \<open>Flush\<close> reports).
\<close>

record 'b bucket_ops =
  NewStatsBucket :: "int64 \<Rightarrow> int64 \<Rightarrow> 'b"
  HandleSpan :: "'b \<Rightarrow> Span \<Rightarrow> string \<Rightarrow> string list \<Rightarrow> 'b"
  DistributionLens :: "'b \<Rightarrow> int list"

text \<open>
  The calls made on the global \<open>statsd.Client\<close> are kept as a log, in the order they are
  made.
\<close>

datatype statsd_call =
    Count string int
  | Histogram string float64

section \<open>The concentrator\<close>

text \<open>
  The state of a \<open>Concentrator\<close>: the bucket map, keyed by the start timestamp of the
  bucket, the configuration, and the log of statsd calls. The mutex is not modelled:
  every operation below runs from \<open>Lock\<close> to \<open>Unlock\<close> as one step. The clock
  \<open>model.Now()\<close> is read once per operation and is the argument \<open>now\<close>.
\<close>

record 'b Concentrator =
  buckets :: "int64 \<rightharpoonup> 'b"
  conf :: AgentConfig
  statsd_calls :: "statsd_call list"

definition NewConcentrator :: "AgentConfig \<Rightarrow> 'b Concentrator" where
  "NewConcentrator cf =
     \<lparr>buckets = Map.empty,
      conf = cf\<lparr>ExtraAggregators := sort (ExtraAggregators cf)\<rparr>,
      statsd_calls = []\<rparr>"

text \<open>\<open>ts - ts % interval\<close>; the remainder panics when the interval is zero.\<close>

definition roundToBucket :: "'b Concentrator \<Rightarrow> int64 \<Rightarrow> error + int64" where
  "roundToBucket c ts =
     (if BucketInterval (conf c) = 0 then Inl DivideByZero
      else Inr (ts - rem64 ts (BucketInterval (conf c))))"

text \<open>
  \<open>HandleNewSpan\<close> returns the error (\<open>None\<close> is Go's \<open>nil\<close>) and the concentrator after
  the call. \<open>Some DivideByZero\<close> stands for the run-time panic of \<open>roundToBucket\<close>, which
  is raised before the bucket map is touched. \<open>HandleSpan\<close> is called on the bucket
  found or created, a copy of the struct in \<open>c.buckets\<close>; with the specification
  (section 4.E: the span is routed into the bucket, which aggregates it) the model takes
  it that what \<open>HandleSpan\<close> aggregates is what the map holds afterwards.
\<close>

definition HandleNewSpan ::
  "'b bucket_ops \<Rightarrow> int64 \<Rightarrow> 'b Concentrator \<Rightarrow> Span \<Rightarrow> string \<Rightarrow> error option \<times> 'b Concentrator" where
  "HandleNewSpan ops now c s env =
     (let endTs = End s in
      if endTs + OldestSpanCutoff (conf c) <s now then
        (Some (LateSpan (quo64 (now - endTs) 1000000000)),
         c\<lparr>statsd_calls := statsd_calls c @ [Count ''trace_agent.concentrator.late_span'' 1]\<rparr>)
      else
        (case roundToBucket c endTs of
           Inl e \<Rightarrow> (Some e, c)
         | Inr bucketTs \<Rightarrow>
             (let b = (case buckets c bucketTs of
                         Some b \<Rightarrow> b
                       | None \<Rightarrow> NewStatsBucket ops bucketTs (BucketInterval (conf c)))
              in (None,
                  c\<lparr>buckets := (buckets c)(bucketTs \<mapsto>
                       HandleSpan ops b s env (ExtraAggregators (conf c)))\<rparr>))))"

text \<open>
  \<open>sortInts64\<close> sorts by the signed order. The keys of a Go map come out of \<open>range\<close> in no
  particular order; \<open>mapKeys\<close> takes them in the order of the words, \<open>sortInts64\<close> then
  fixes the order of the loop, whatever the first one was.
\<close>

definition sortInts64 :: "int64 list \<Rightarrow> int64 list" where
  "sortInts64 a = sort_key sint a"

definition mapKeys :: "(int64 \<rightharpoonup> 'b) \<Rightarrow> int64 list" where
  "mapKeys m = sorted_list_of_set (dom m)"

text \<open>
  The loop of \<open>Flush\<close> over the sorted keys, on the pair of the slice \<open>sb\<close> built so far and
  the concentrator. Every key comes from the map and is deleted at most once, at its own
  turn, so the lookup \<open>c.buckets[ts]\<close> always finds a bucket; the branch \<open>None\<close> is never
  taken.
\<close>

fun flushKeys ::
  "'b bucket_ops \<Rightarrow> int64 \<Rightarrow> int64 \<Rightarrow> int64 list \<Rightarrow> 'b list \<times> 'b Concentrator
     \<Rightarrow> 'b list \<times> 'b Concentrator" where
  "flushKeys ops now lastBucketTs [] (sb, c) = (sb, c)"
| "flushKeys ops now lastBucketTs (ts # keys) (sb, c) =
     (case buckets c ts of
        None \<Rightarrow> flushKeys ops now lastBucketTs keys (sb, c)
      | Some bucket \<Rightarrow>
          if ts <s now - OldestSpanCutoff (conf c) \<and> ts <s lastBucketTs then
            flushKeys ops now lastBucketTs keys
              (sb @ [bucket],
               c\<lparr>buckets := (buckets c)(ts := None),
                 statsd_calls := statsd_calls c @
                   map (\<lambda>n. Histogram ''trace_agent.distribution.len'' (real_of_int n))
                     (DistributionLens ops bucket)\<rparr>)
          else flushKeys ops now lastBucketTs keys (sb, c))"

definition Flush ::
  "'b bucket_ops \<Rightarrow> int64 \<Rightarrow> 'b Concentrator \<Rightarrow> error + ('b list \<times> 'b Concentrator)" where
  "Flush ops now c =
     (case roundToBucket c now of
        Inl e \<Rightarrow> Inl e
      | Inr lastBucketTs \<Rightarrow>
          Inr (flushKeys ops now lastBucketTs (sortInts64 (mapKeys (buckets c))) ([], c)))"

text \<open>
  Concrete values on which the concentrator is run below: a bucket that only counts the
  spans it has aggregated, the zero value of a span, and a configuration with buckets of
  ten seconds and a cutoff of sixty seconds.
\<close>

definition countingOps :: "nat bucket_ops" where
  "countingOps =
     \<lparr>NewStatsBucket = (\<lambda>ts width. 0),
      HandleSpan = (\<lambda>b s env aggregators. Suc b),
      DistributionLens = (\<lambda>b. [int b])\<rparr>"

definition zeroSpan :: Span where
  "zeroSpan =
     \<lparr>TraceID = 0, SpanID = 0, ParentID = 0, Service = [], Name = [], Resource = [],
      Type = [], Start = 0, Duration = 0, Env = [], Error = False, Metrics = None\<rparr>"

definition spanEnding :: "int64 \<Rightarrow> Span" where
  "spanEnding ts = zeroSpan\<lparr>Start := ts\<rparr>"

definition tenSixty :: AgentConfig where
  "tenSixty =
     \<lparr>BucketInterval = 10000000000, OldestSpanCutoff = 60000000000,
      ExtraAggregators = [], DefaultEnv = ''none''\<rparr>"

text \<open>
  A concentrator with that configuration that holds three full buckets, ten seconds
  apart, and a fourth one, much later.
\<close>

definition fourBuckets :: "nat Concentrator" where
  "fourBuckets =
     (NewConcentrator tenSixty)
       \<lparr>buckets := [1499999820000000000 \<mapsto> 3, 1499999800000000000 \<mapsto> 1,
                    1499999990000000000 \<mapsto> 4, 1499999810000000000 \<mapsto> 2]\<rparr>"

section \<open>Sublayers of a trace\<close>




















section \<open>The sampler backend\<close>

text \<open>
  Modelled from the spec: the type \<open>Signature\<close> is declared in a file of the package
  \<open>sampler\<close> that is not part of the sources at hand; section 3 gives it as a 64-bit
  integer.
\<close>

type_synonym Signature = uint64

text \<open>
  The state of a \<open>Backend\<close>. The channel \<open>exit\<close> is only ever closed, so its state is
  whether it has been closed. The mutex is not modelled: every operation runs from
  \<open>Lock\<close> to \<open>Unlock\<close> as one step.
\<close>

record Backend =
  scores :: "Signature \<rightharpoonup> float64"
  totalScore :: float64
  sampledScore :: float64
  decayPeriod :: int64
  decayFactor :: float64
  countScaleFactor :: float64
  exit_closed :: bool

text \<open>\<open>time.Duration.Seconds\<close>: the nanoseconds as a floating-point number of seconds.\<close>

definition Seconds :: "int64 \<Rightarrow> float64" where
  "Seconds d = real_of_int (sint d) / 1000000000"

definition NewBackend :: "int64 \<Rightarrow> Backend" where
  "NewBackend period =
     (let factor = 1.125 in
      \<lparr>scores = Map.empty,
       totalScore = 0,
       sampledScore = 0,
       decayPeriod = period,
       decayFactor = factor,
       countScaleFactor = (factor / (factor - 1)) * Seconds period,
       exit_closed = False\<rparr>)"

text \<open>\<open>close\<close> of a channel that is already closed panics.\<close>

definition Stop :: "Backend \<Rightarrow> error + Backend" where
  "Stop b = (if exit_closed b then Inl CloseOfClosedChannel else Inr (b\<lparr>exit_closed := True\<rparr>))"

text \<open>Reading a Go map at a key it does not hold gives the zero value and adds no entry.\<close>

definition scoreOf :: "(Signature \<rightharpoonup> float64) \<Rightarrow> Signature \<Rightarrow> float64" where
  "scoreOf m sig = (case m sig of None \<Rightarrow> 0 | Some v \<Rightarrow> v)"

definition CountSignature :: "Backend \<Rightarrow> Signature \<Rightarrow> Backend" where
  "CountSignature b sig =
     b\<lparr>scores := (scores b)(sig \<mapsto> scoreOf (scores b) sig + 1),
       totalScore := totalScore b + 1\<rparr>"

definition CountSample :: "Backend \<Rightarrow> Backend" where
  "CountSample b = b\<lparr>sampledScore := sampledScore b + 1\<rparr>"

text \<open>
  The getters take the lock, read and release it. \<open>GetSignatureScore\<close> is given with the
  backend it leaves behind, the others as the value they return.
\<close>

definition GetSignatureScore :: "Backend \<Rightarrow> Signature \<Rightarrow> float64 \<times> Backend" where
  "GetSignatureScore b sig = (scoreOf (scores b) sig / countScaleFactor b, b)"

definition GetSampledScore :: "Backend \<Rightarrow> float64" where
  "GetSampledScore b = sampledScore b / countScaleFactor b"

definition GetTotalScore :: "Backend \<Rightarrow> float64" where
  "GetTotalScore b = totalScore b / countScaleFactor b"

definition GetUpperSampledScore :: "Backend \<Rightarrow> float64" where
  "GetUpperSampledScore b = GetSampledScore b * decayFactor b"

definition GetCardinality :: "Backend \<Rightarrow> int64" where
  "GetCardinality b = word_of_int (int (card (dom (scores b))))"

text \<open>
  The body of the loop of \<open>DecayScore\<close> for one entry: the score it keeps, or \<open>None\<close> when
  the entry is deleted. The constant \<open>minSignatureScoreOffset\<close> is declared in a file of
  the package that is not at hand and is the parameter \<open>minOffset\<close>. The loop ranges over
  the map and touches, at each signature, that entry only, so it is the map of the
  entries' results.
\<close>

definition decayEntry :: "float64 \<Rightarrow> float64 \<Rightarrow> float64 \<Rightarrow> float64 option" where
  "decayEntry factor minOffset score =
     (if score > factor * minOffset then Some (score / factor) else None)"

definition DecayScore :: "float64 \<Rightarrow> Backend \<Rightarrow> Backend" where
  "DecayScore minOffset b =
     b\<lparr>scores := (\<lambda>sig. case scores b sig of
                       None \<Rightarrow> None
                     | Some score \<Rightarrow> decayEntry (decayFactor b) minOffset score),
       totalScore := totalScore b / decayFactor b,
       sampledScore := sampledScore b / decayFactor b\<rparr>"

text \<open>
  The backends that the operations build from \<open>NewBackend period\<close>, in any order.
\<close>

inductive reachable :: "float64 \<Rightarrow> int64 \<Rightarrow> Backend \<Rightarrow> bool" for minOffset period where
  reach_new: "reachable minOffset period (NewBackend period)"
| reach_count: "reachable minOffset period b \<Longrightarrow> reachable minOffset period (CountSignature b sig)"
| reach_sample: "reachable minOffset period b \<Longrightarrow> reachable minOffset period (CountSample b)"
| reach_decay: "reachable minOffset period b \<Longrightarrow> reachable minOffset period (DecayScore minOffset b)"
| reach_stop: "reachable minOffset period b \<Longrightarrow> Stop b = Inr b' \<Longrightarrow> reachable minOffset period b'"

text \<open>The sum of the scores of all signatures of the map.\<close>

definition sumScores :: "Backend \<Rightarrow> float64" where
  "sumScores b = (\<Sum>sig \<in> dom (scores b). scoreOf (scores b) sig)"

text \<open>\<open>DecayScore\<close> called \<open>n\<close> times in a row, as \<open>Run\<close> does on \<open>n\<close> ticks.\<close>

definition decayTimes :: "nat \<Rightarrow> float64 \<Rightarrow> Backend \<Rightarrow> Backend" where
  "decayTimes n minOffset b = ((DecayScore minOffset) ^^ n) b"

text \<open>\<open>Stop\<close> called twice in a row; a panic of the first call ends the sequence.\<close>

definition StopTwice :: "Backend \<Rightarrow> error + Backend" where
  "StopTwice b = (case Stop b of Inl e \<Rightarrow> Inl e | Inr b' \<Rightarrow> Stop b')"

section \<open>Signed arithmetic on 64-bit words\<close>

lemma sint_range64: "- (2 ^ 63) \<le> sint (a :: int64) \<and> sint a < 2 ^ 63"
  using sint_ge [of a] sint_lt [of a] by simp

lemma sint_add64:
  "- (2 ^ 63) \<le> sint a + sint b \<Longrightarrow> sint a + sint b < 2 ^ 63
     \<Longrightarrow> sint (a + b :: int64) = sint a + sint b"
  by (simp add: sint_word_add signed_take_bit_int_eq_self)

lemma sint_sub64:
  "- (2 ^ 63) \<le> sint a - sint b \<Longrightarrow> sint a - sint b < 2 ^ 63
     \<Longrightarrow> sint (a - b :: int64) = sint a - sint b"
  by (simp add: sint_word_diff signed_take_bit_int_eq_self)

lemma sint_of_int64:
  "- (2 ^ 63) \<le> k \<Longrightarrow> k < 2 ^ 63 \<Longrightarrow> sint (word_of_int k :: int64) = k"
  by (simp add: sint_sbintrunc' signed_take_bit_int_eq_self)

lemma sint_rem64_nonneg:
  assumes "0 \<le> sint a" "0 < sint b"
  shows "sint (rem64 a b) = sint a mod sint b"
proof -
  have m: "sint a smod sint b = sint a mod sint b"
    using assms by (simp add: smod_mod_positive)
  have "0 \<le> sint a mod sint b" "sint a mod sint b \<le> sint a"
    using assms by (simp_all add: zmod_le_nonneg_dividend)
  with sint_range64 [of a] show ?thesis
    unfolding rem64_def m by (intro sint_of_int64) linarith+
qed

lemma sint_roundToBucket_nonneg:
  assumes "0 \<le> sint ts" "0 < sint (BucketInterval (conf c))"
  shows "\<exists>k. roundToBucket c ts = Inr k
           \<and> sint k = sint ts - sint ts mod sint (BucketInterval (conf c))"
proof -
  let ?w = "BucketInterval (conf c)"
  from assms have nz: "?w \<noteq> 0" by auto
  have r: "sint (rem64 ts ?w) = sint ts mod sint ?w"
    using assms by (rule sint_rem64_nonneg)
  have "0 \<le> sint ts mod sint ?w" "sint ts mod sint ?w \<le> sint ts"
    using assms by (simp_all add: zmod_le_nonneg_dividend)
  with sint_range64 [of ts] have "sint (ts - rem64 ts ?w) = sint ts - sint (rem64 ts ?w)"
    by (intro sint_sub64) (simp_all add: r)
  then show ?thesis using nz by (simp add: roundToBucket_def r)
qed


section \<open>The lateness gate and the bucket of a span\<close>

lemma HandleNewSpan_late:
  "End s + OldestSpanCutoff (conf c) <s now \<Longrightarrow>
     HandleNewSpan ops now c s env =
       (Some (LateSpan (quo64 (now - End s) 1000000000)),
        c\<lparr>statsd_calls := statsd_calls c @ [Count ''trace_agent.concentrator.late_span'' 1]\<rparr>)"
  by (simp add: HandleNewSpan_def Let_def)

lemma HandleNewSpan_panic:
  "\<not> End s + OldestSpanCutoff (conf c) <s now \<Longrightarrow> BucketInterval (conf c) = 0 \<Longrightarrow>
     HandleNewSpan ops now c s env = (Some DivideByZero, c)"
  by (simp add: HandleNewSpan_def Let_def roundToBucket_def)

lemma HandleNewSpan_accept:
  "\<not> End s + OldestSpanCutoff (conf c) <s now \<Longrightarrow> roundToBucket c (End s) = Inr ts \<Longrightarrow>
     HandleNewSpan ops now c s env =
       (None,
        c\<lparr>buckets := (buckets c)(ts \<mapsto>
             HandleSpan ops
               (case buckets c ts of Some b \<Rightarrow> b
                | None \<Rightarrow> NewStatsBucket ops ts (BucketInterval (conf c)))
               s env (ExtraAggregators (conf c)))\<rparr>)"
  by (simp add: HandleNewSpan_def Let_def)

lemma late_iff:
  assumes "- (2 ^ 63) \<le> sint e + sint cutoff" "sint e + sint cutoff < 2 ^ 63"
  shows "(e + cutoff <s (now :: int64)) = (sint cutoff < sint now - sint e)"
  using assms by (auto simp: word_sless_alt sint_add64)

text \<open>
  C1 (as amended). Provided \<open>span.End + oldest_span_cutoff\<close> does not overflow \<open>int64\<close>,
  \<open>HandleNewSpan\<close> returns a \<open>LateSpan\<close> error if and only if
  \<open>now - span.End > oldest_span_cutoff\<close>. Whenever it returns that error, the bucket map
  is unchanged and one call \<open>Count("trace_agent.concentrator.late_span", 1)\<close> has been
  made. Whenever it does not, and the bucket interval is not zero, it returns \<open>nil\<close> and
  the map holds, at the key \<open>roundToBucket(span.End)\<close>, the bucket found there (or, if
  there was none, the new bucket made for that key) after \<open>HandleSpan\<close>; nothing else
  has changed.
\<close>

theorem HandleNewSpan_lateness_gate:
  "(- (2 ^ 63) \<le> sint (End s) + sint (OldestSpanCutoff (conf c))
      \<and> sint (End s) + sint (OldestSpanCutoff (conf c)) < 2 ^ 63 \<longrightarrow>
      (\<exists>late. fst (HandleNewSpan ops now c s env) = Some (LateSpan late))
        = (sint (OldestSpanCutoff (conf c)) < sint now - sint (End s)))
   \<and> ((\<exists>late. fst (HandleNewSpan ops now c s env) = Some (LateSpan late)) \<longrightarrow>
        buckets (snd (HandleNewSpan ops now c s env)) = buckets c
        \<and> statsd_calls (snd (HandleNewSpan ops now c s env))
            = statsd_calls c @ [Count ''trace_agent.concentrator.late_span'' 1])
   \<and> ((\<nexists>late. fst (HandleNewSpan ops now c s env) = Some (LateSpan late))
        \<and> BucketInterval (conf c) \<noteq> 0 \<longrightarrow>
        (\<exists>ts. roundToBucket c (End s) = Inr ts
           \<and> HandleNewSpan ops now c s env =
               (None,
                c\<lparr>buckets := (buckets c)(ts \<mapsto>
                     HandleSpan ops
                       (case buckets c ts of Some b \<Rightarrow> b
                        | None \<Rightarrow> NewStatsBucket ops ts (BucketInterval (conf c)))
                       s env (ExtraAggregators (conf c)))\<rparr>)))"
proof (cases "End s + OldestSpanCutoff (conf c) <s now")
  case True
  note l = HandleNewSpan_late [OF True, of ops env]
  have "\<exists>late. fst (HandleNewSpan ops now c s env) = Some (LateSpan late)"
    by (simp add: l)
  then show ?thesis using True by (auto simp: l late_iff)
next
  case False
  have n: "\<nexists>late. fst (HandleNewSpan ops now c s env) = Some (LateSpan late)"
  proof (cases "BucketInterval (conf c) = 0")
    case True
    show ?thesis by (simp add: HandleNewSpan_panic [OF False True])
  next
    case nz: False
    then have "roundToBucket c (End s) = Inr (End s - rem64 (End s) (BucketInterval (conf c)))"
      by (simp add: roundToBucket_def)
    from HandleNewSpan_accept [OF False this] show ?thesis by simp
  qed
  have "BucketInterval (conf c) \<noteq> 0 \<Longrightarrow>
      \<exists>ts. roundToBucket c (End s) = Inr ts
           \<and> HandleNewSpan ops now c s env =
               (None,
                c\<lparr>buckets := (buckets c)(ts \<mapsto>
                     HandleSpan ops
                       (case buckets c ts of Some b \<Rightarrow> b
                        | None \<Rightarrow> NewStatsBucket ops ts (BucketInterval (conf c)))
                       s env (ExtraAggregators (conf c)))\<rparr>)"
  proof -
    assume "BucketInterval (conf c) \<noteq> 0"
    then have r: "roundToBucket c (End s) = Inr (End s - rem64 (End s) (BucketInterval (conf c)))"
      by (simp add: roundToBucket_def)
    from HandleNewSpan_accept [OF False r] r show ?thesis by blast
  qed
  with n False show ?thesis by (auto simp: late_iff)
qed


lemma conf_NewConcentrator_tenSixty:
  "BucketInterval (conf (NewConcentrator tenSixty)) = 10000000000"
  "OldestSpanCutoff (conf (NewConcentrator tenSixty)) = 60000000000"
  "ExtraAggregators (conf (NewConcentrator tenSixty)) = []"
  "buckets (NewConcentrator tenSixty) = Map.empty"
  "statsd_calls (NewConcentrator tenSixty) = []"
  by (simp_all add: NewConcentrator_def tenSixty_def)

lemma End_spanEnding: "End (spanEnding ts) = ts"
  by (simp add: End_def spanEnding_def zeroSpan_def)

text \<open>
  C1 as stated fails where the sum \<open>end + OldestSpanCutoff\<close> wraps around: at
  \<open>now = 1.5e18\<close> with a cutoff of sixty seconds, a span that ends at \<open>2^63 - 1\<close> is
  rejected as late (``late by -7723372036s''), although \<open>now - span.End\<close> is negative.
\<close>

theorem far_future_span_rejected:
  "fst (HandleNewSpan countingOps 1500000000000000000 (NewConcentrator tenSixty)
          (spanEnding 9223372036854775807) ''none'')
     = Some (LateSpan (- 7723372036))
   \<and> \<not> sint (OldestSpanCutoff (conf (NewConcentrator tenSixty :: nat Concentrator)))
         < sint (1500000000000000000 :: int64) - sint (End (spanEnding 9223372036854775807))"
proof -
  have "End (spanEnding 9223372036854775807)
          + OldestSpanCutoff (conf (NewConcentrator tenSixty :: nat Concentrator))
        <s 1500000000000000000"
    by (simp add: End_spanEnding conf_NewConcentrator_tenSixty word_sless_alt)
  from HandleNewSpan_late [OF this, of countingOps "''none''"]
  have "fst (HandleNewSpan countingOps 1500000000000000000 (NewConcentrator tenSixty)
          (spanEnding 9223372036854775807) ''none'')
     = Some (LateSpan (quo64 (1500000000000000000 - 9223372036854775807) 1000000000))"
    by (simp add: End_spanEnding)
  moreover have "quo64 (1500000000000000000 - 9223372036854775807) 1000000000 = - 7723372036"
    by code_simp
  ultimately show ?thesis
    by (simp add: End_spanEnding conf_NewConcentrator_tenSixty)
qed

text \<open>
  The gate at \<open>now = 1.5e18\<close>, buckets of ten seconds, cutoff of sixty: a span that ended
  61 seconds ago is rejected, one that ended 5 seconds ago goes to a new bucket.
\<close>

theorem HandleNewSpan_lateness_gate_witness:
  "HandleNewSpan countingOps 1500000000000000000 (NewConcentrator tenSixty)
      (spanEnding 1499999939000000000) ''none''
     = (Some (LateSpan 61),
        (NewConcentrator tenSixty)
          \<lparr>statsd_calls := [Count ''trace_agent.concentrator.late_span'' 1]\<rparr>)
   \<and> sint (OldestSpanCutoff (conf (NewConcentrator tenSixty :: nat Concentrator)))
        < sint (1500000000000000000 :: int64) - sint (End (spanEnding 1499999939000000000))
   \<and> HandleNewSpan countingOps 1500000000000000000 (NewConcentrator tenSixty)
      (spanEnding 1499999995000000000) ''none''
     = (None, (NewConcentrator tenSixty)\<lparr>buckets := [1499999990000000000 \<mapsto> 1]\<rparr>)
   \<and> \<not> sint (OldestSpanCutoff (conf (NewConcentrator tenSixty :: nat Concentrator)))
        < sint (1500000000000000000 :: int64) - sint (End (spanEnding 1499999995000000000))"
proof -
  let ?c = "NewConcentrator tenSixty :: nat Concentrator"
  let ?now = "1500000000000000000 :: int64"
  let ?late = "spanEnding 1499999939000000000"
  let ?ok = "spanEnding 1499999995000000000"
  note g1 = HandleNewSpan_lateness_gate [of ?late ?c countingOps ?now "''none''"]
  note g2 = HandleNewSpan_lateness_gate [of ?ok ?c countingOps ?now "''none''"]
  have a1: "sint (OldestSpanCutoff (conf ?c)) < sint ?now - sint (End ?late)"
    and a2: "\<not> sint (OldestSpanCutoff (conf ?c)) < sint ?now - sint (End ?ok)"
    and r1: "- (2 ^ 63) \<le> sint (End ?late) + sint (OldestSpanCutoff (conf ?c))
             \<and> sint (End ?late) + sint (OldestSpanCutoff (conf ?c)) < 2 ^ 63"
    and r2: "- (2 ^ 63) \<le> sint (End ?ok) + sint (OldestSpanCutoff (conf ?c))
             \<and> sint (End ?ok) + sint (OldestSpanCutoff (conf ?c)) < 2 ^ 63"
    and nz: "BucketInterval (conf ?c) \<noteq> 0"
    by (simp_all add: End_spanEnding conf_NewConcentrator_tenSixty)
  from g1 r1 a1 obtain late where
    l: "fst (HandleNewSpan countingOps ?now ?c ?late ''none'') = Some (LateSpan late)"
    by blast
  with g1 have l2: "buckets (snd (HandleNewSpan countingOps ?now ?c ?late ''none'')) = buckets ?c"
    "statsd_calls (snd (HandleNewSpan countingOps ?now ?c ?late ''none''))
       = statsd_calls ?c @ [Count ''trace_agent.concentrator.late_span'' 1]"
    by blast+
  have q: "quo64 61000000000 1000000000 = 61" by code_simp
  have e1: "HandleNewSpan countingOps ?now ?c ?late ''none''
     = (Some (LateSpan 61), ?c\<lparr>statsd_calls := [Count ''trace_agent.concentrator.late_span'' 1]\<rparr>)"
    using l l2
    by (cases "11 + 60000000000 <s (1500000000000000000 :: int64)")
       (simp_all add: HandleNewSpan_def Let_def End_spanEnding conf_NewConcentrator_tenSixty q
          roundToBucket_def split: if_splits)
  from g2 r2 a2 have "\<nexists>late. fst (HandleNewSpan countingOps ?now ?c ?ok ''none'') = Some (LateSpan late)"
    by blast
  with g2 nz obtain ts where t: "roundToBucket ?c (End ?ok) = Inr ts"
    and h: "HandleNewSpan countingOps ?now ?c ?ok ''none'' =
               (None,
                ?c\<lparr>buckets := (buckets ?c)(ts \<mapsto>
                     HandleSpan countingOps
                       (case buckets ?c ts of Some b \<Rightarrow> b
                        | None \<Rightarrow> NewStatsBucket countingOps ts (BucketInterval (conf ?c)))
                       ?ok ''none'' (ExtraAggregators (conf ?c)))\<rparr>)"
    by blast
  have "rem64 1499999995000000000 10000000000 = 5000000000" by code_simp
  with t have ts: "ts = 1499999990000000000"
    by (simp add: roundToBucket_def End_spanEnding conf_NewConcentrator_tenSixty)
  have e2: "HandleNewSpan countingOps ?now ?c ?ok ''none''
     = (None, ?c\<lparr>buckets := [1499999990000000000 \<mapsto> 1]\<rparr>)"
    unfolding h ts by (simp add: conf_NewConcentrator_tenSixty countingOps_def)
  show ?thesis using e1 e2 a1 a2 by simp
qed

text \<open>
  C3 (as amended). With a positive bucket interval, every span that \<open>HandleNewSpan\<close>
  accepts and whose \<open>End\<close> is not negative is aggregated into the bucket stored at the
  key \<open>ts = span.End - (span.End mod bucket_ns)\<close>, and \<open>ts \<le> span.End < ts + bucket_ns\<close>.
  A clock that reads at least the (non-negative) cutoff is enough for that: then no
  span with a negative \<open>End\<close> is accepted.
\<close>

theorem bucket_containment:
  assumes "0 <s BucketInterval (conf c)"
    and "0 \<le>s End s
         \<or> (0 \<le>s OldestSpanCutoff (conf c) \<and> OldestSpanCutoff (conf c) \<le>s now)"
    and "HandleNewSpan ops now c s env = (None, c')"
  shows "\<exists>ts. roundToBucket c (End s) = Inr ts
           \<and> buckets c' ts =
               Some (HandleSpan ops
                       (case buckets c ts of Some b \<Rightarrow> b
                        | None \<Rightarrow> NewStatsBucket ops ts (BucketInterval (conf c)))
                       s env (ExtraAggregators (conf c)))
           \<and> sint ts = sint (End s) - sint (End s) mod sint (BucketInterval (conf c))
           \<and> sint ts \<le> sint (End s)
           \<and> sint (End s) < sint ts + sint (BucketInterval (conf c))"
proof -
  let ?w = "BucketInterval (conf c)" and ?cut = "OldestSpanCutoff (conf c)"
  from assms(1) have w: "0 < sint ?w" by (simp add: word_sless_alt)
  have acc: "\<not> End s + ?cut <s now"
  proof
    assume "End s + ?cut <s now"
    from HandleNewSpan_late [OF this, of ops env] assms(3) show False by simp
  qed
  have nonneg: "0 \<le> sint (End s)"
  proof (rule ccontr)
    assume "\<not> 0 \<le> sint (End s)"
    then have neg: "sint (End s) < 0" by simp
    with assms(2) have cut: "0 \<le> sint ?cut" and now: "sint ?cut \<le> sint now"
      by (simp_all add: word_sle_eq)
    from neg cut sint_range64 [of "End s"] sint_range64 [of ?cut]
    have "sint (End s + ?cut) = sint (End s) + sint ?cut"
      by (intro sint_add64) linarith+
    with neg now have "End s + ?cut <s now" by (simp add: word_sless_alt)
    with acc show False by contradiction
  qed
  from sint_roundToBucket_nonneg [OF nonneg w] obtain ts
    where r: "roundToBucket c (End s) = Inr ts"
      and k: "sint ts = sint (End s) - sint (End s) mod sint ?w"
    by blast
  from HandleNewSpan_accept [OF acc r, of ops env] assms(3)
  have "buckets c' ts =
               Some (HandleSpan ops
                       (case buckets c ts of Some b \<Rightarrow> b
                        | None \<Rightarrow> NewStatsBucket ops ts ?w)
                       s env (ExtraAggregators (conf c)))"
    by auto
  moreover have "0 \<le> sint (End s) mod sint ?w" "sint (End s) mod sint ?w < sint ?w"
    using w by simp_all
  ultimately show ?thesis using r k by auto
qed

text \<open>
  C3 as stated fails for a span that ends before the epoch, which is accepted while the
  clock reads less than the cutoff: Go's \<open>%\<close> truncates towards zero, so
  \<open>roundToBucket\<close> rounds a negative timestamp up. At \<open>now = 0\<close> a span that ended five
  seconds earlier goes to the bucket that starts at 0.
\<close>

theorem negative_end_outside_bucket:
  "HandleNewSpan countingOps 0 (NewConcentrator tenSixty) (spanEnding (- 5000000000)) ''none''
     = (None, (NewConcentrator tenSixty)\<lparr>buckets := [0 \<mapsto> 1]\<rparr>)
   \<and> roundToBucket (NewConcentrator tenSixty :: nat Concentrator)
        (End (spanEnding (- 5000000000))) = Inr 0
   \<and> \<not> sint (0 :: int64) \<le> sint (End (spanEnding (- 5000000000)))"
proof -
  let ?c = "NewConcentrator tenSixty :: nat Concentrator"
  have rm: "rem64 (- 5000000000) 10000000000 = - 5000000000" by code_simp
  have r: "roundToBucket ?c (- 5000000000) = Inr 0"
    by (simp add: roundToBucket_def conf_NewConcentrator_tenSixty rm)
  have nl: "\<not> End (spanEnding (- 5000000000)) + OldestSpanCutoff (conf ?c) <s 0"
    by (simp add: End_spanEnding conf_NewConcentrator_tenSixty word_sless_alt)
  have "HandleNewSpan countingOps 0 ?c (spanEnding (- 5000000000)) ''none''
       = (None, ?c\<lparr>buckets := [0 \<mapsto> 1]\<rparr>)"
    using nl r
    by (simp add: HandleNewSpan_def Let_def End_spanEnding conf_NewConcentrator_tenSixty
        countingOps_def)
  then show ?thesis using r by (simp add: End_spanEnding)
qed

text \<open>
  At \<open>now = 1.5e18\<close> the span that ended 5 seconds ago is in the bucket that started
  10 seconds ago.
\<close>

theorem bucket_containment_witness:
  "(0 :: int64) <s 10000000000 \<and> (0 :: int64) \<le>s 60000000000
   \<and> (60000000000 :: int64) \<le>s 1500000000000000000
   \<and> (0 :: int64) \<le>s 1499999995000000000
   \<and> HandleNewSpan countingOps 1500000000000000000 (NewConcentrator tenSixty)
        (spanEnding 1499999995000000000) ''none''
       = (None, (NewConcentrator tenSixty)\<lparr>buckets := [1499999990000000000 \<mapsto> 1]\<rparr>)
   \<and> roundToBucket (NewConcentrator tenSixty :: nat Concentrator) 1499999995000000000
       = Inr 1499999990000000000
   \<and> sint (1499999990000000000 :: int64) \<le> sint (1499999995000000000 :: int64)
   \<and> sint (1499999995000000000 :: int64)
       < sint (1499999990000000000 :: int64) + sint (10000000000 :: int64)"
proof -
  let ?c = "NewConcentrator tenSixty :: nat Concentrator"
  let ?now = "1500000000000000000 :: int64"
  let ?ok = "spanEnding 1499999995000000000"
  have rm: "rem64 1499999995000000000 10000000000 = 5000000000" by code_simp
  have r: "roundToBucket ?c 1499999995000000000 = Inr 1499999990000000000"
    by (simp add: roundToBucket_def conf_NewConcentrator_tenSixty rm)
  have nl: "\<not> End ?ok + OldestSpanCutoff (conf ?c) <s ?now"
    by (simp add: End_spanEnding conf_NewConcentrator_tenSixty word_sless_alt)
  have h: "HandleNewSpan countingOps ?now ?c ?ok ''none''
       = (None, ?c\<lparr>buckets := [1499999990000000000 \<mapsto> 1]\<rparr>)"
    using nl r
    by (simp add: HandleNewSpan_def Let_def End_spanEnding conf_NewConcentrator_tenSixty
        countingOps_def)
  have a: "0 <s BucketInterval (conf ?c)" "0 \<le>s OldestSpanCutoff (conf ?c)"
    "OldestSpanCutoff (conf ?c) \<le>s ?now"
    by (simp_all add: conf_NewConcentrator_tenSixty word_sless_alt word_sle_eq)
  have e: "0 \<le>s End ?ok" by (simp add: End_spanEnding word_sle_eq)
  then have "0 \<le>s End ?ok
         \<or> (0 \<le>s OldestSpanCutoff (conf ?c) \<and> OldestSpanCutoff (conf ?c) \<le>s ?now)" ..
  from bucket_containment [OF a(1) this h] obtain ts
    where t: "roundToBucket ?c (End ?ok) = Inr ts"
      and b: "sint ts \<le> sint (End ?ok)" "sint (End ?ok) < sint ts + sint (BucketInterval (conf ?c))"
    by blast
  from t r have "ts = 1499999990000000000" by (simp add: End_spanEnding)
  with b have "sint (1499999990000000000 :: int64) \<le> sint (1499999995000000000 :: int64)"
    "sint (1499999995000000000 :: int64)
       < sint (1499999990000000000 :: int64) + sint (10000000000 :: int64)"
    by (simp_all only: End_spanEnding conf_NewConcentrator_tenSixty)
  moreover have "(0 :: int64) <s 10000000000" "(0 :: int64) \<le>s 60000000000"
    "(60000000000 :: int64) \<le>s 1500000000000000000"
    using a by (simp_all only: conf_NewConcentrator_tenSixty)
  moreover have "(0 :: int64) \<le>s 1499999995000000000"
    using e by (simp only: End_spanEnding)
  ultimately show ?thesis using h r by blast
qed

section \<open>Flushing the buckets\<close>

lemma flushKeys_result:
  assumes "distinct ks" "set ks \<subseteq> dom (buckets c)" "OldestSpanCutoff (conf c) = cutoff"
  shows "fst (flushKeys ops now lastTs ks (sb, c))
           = sb @ map (\<lambda>ts. the (buckets c ts))
                    (filter (\<lambda>ts. ts <s now - cutoff \<and> ts <s lastTs) ks)
         \<and> buckets (snd (flushKeys ops now lastTs ks (sb, c)))
           = (\<lambda>ts. if ts \<in> set ks \<and> ts <s now - cutoff \<and> ts <s lastTs then None
                    else buckets c ts)
         \<and> conf (snd (flushKeys ops now lastTs ks (sb, c))) = conf c"
  using assms
proof (induction ks arbitrary: sb c)
  case Nil
  show ?case by simp
next
  case (Cons ts ks)
  from Cons.prems obtain bucket where b: "buckets c ts = Some bucket" by auto
  from Cons.prems have d: "distinct ks" and nin: "ts \<notin> set ks"
    and sub: "set ks \<subseteq> dom (buckets c)" by auto
  show ?case
  proof (cases "ts <s now - cutoff \<and> ts <s lastTs")
    case True
    let ?c1 = "c\<lparr>buckets := (buckets c)(ts := None),
                 statsd_calls := statsd_calls c @
                   map (\<lambda>n. Histogram ''trace_agent.distribution.len'' (real_of_int n))
                     (DistributionLens ops bucket)\<rparr>"
    have sub1: "set ks \<subseteq> dom (buckets ?c1)" using sub nin by auto
    have cut1: "OldestSpanCutoff (conf ?c1) = cutoff" using Cons.prems by simp
    have step: "flushKeys ops now lastTs (ts # ks) (sb, c)
                  = flushKeys ops now lastTs ks (sb @ [bucket], ?c1)"
      using True b Cons.prems(3) by simp
    have same: "map (\<lambda>k. the (buckets ?c1 k)) (filter (\<lambda>ts. ts <s now - cutoff \<and> ts <s lastTs) ks)
              = map (\<lambda>k. the (buckets c k)) (filter (\<lambda>ts. ts <s now - cutoff \<and> ts <s lastTs) ks)"
      using nin by (intro map_cong) auto
    from Cons.IH [OF d sub1 cut1, of "sb @ [bucket]"] show ?thesis
      unfolding step same using True b nin by (auto simp: fun_eq_iff)
  next
    case False
    have step: "flushKeys ops now lastTs (ts # ks) (sb, c) = flushKeys ops now lastTs ks (sb, c)"
      using False b Cons.prems(3) by auto
    from Cons.IH [OF d sub Cons.prems(3), of sb] show ?thesis
      unfolding step using False by (auto simp: fun_eq_iff)
  qed
qed

lemma sortInts64_mapKeys:
  "set (sortInts64 (mapKeys m)) = dom m"
  "distinct (sortInts64 (mapKeys m))"
  "sorted (map sint (sortInts64 (mapKeys m)))"
  by (simp_all add: sortInts64_def mapKeys_def)

lemma sorted_wrt_sint_filter:
  assumes "sorted (map sint ks)" "distinct (ks :: int64 list)"
  shows "sorted_wrt (\<lambda>a b. sint a < sint b) (filter P ks)"
proof -
  have "sorted_wrt (\<lambda>a b. sint a \<le> sint b) ks"
    using assms(1) by (simp add: sorted_wrt_map)
  moreover have inj: "\<And>a b :: int64. sint a = sint b \<Longrightarrow> a = b"
    by (rule signed_word_eqI)
  ultimately have "sorted_wrt (\<lambda>a b. sint a < sint b) ks"
    using assms(2)
    by (induction ks) (fastforce simp: order_less_le dest: inj)+
  then show ?thesis by (rule sorted_wrt_filter)
qed


text \<open>
  C2. With a non-negative clock and cutoff and a positive bucket interval, \<open>Flush\<close>
  returns the buckets of exactly the keys \<open>ts\<close> of the map with
  \<open>ts < now - oldest_span_cutoff\<close> and \<open>ts < floor(now / bucket_ns) * bucket_ns\<close>, in
  strictly ascending order of \<open>ts\<close>, and removes exactly those keys: the keys that
  remain are the other keys of the map before the call, with the buckets they had.
\<close>

theorem Flush_result:
  assumes "0 \<le>s now"
    and "0 \<le>s OldestSpanCutoff (conf c)"
    and "0 <s BucketInterval (conf c)"
  shows "\<exists>sb c' ks. Flush ops now c = Inr (sb, c')
           \<and> set ks = {ts \<in> dom (buckets c).
                 sint ts < sint now - sint (OldestSpanCutoff (conf c))
                 \<and> sint ts < (sint now div sint (BucketInterval (conf c)))
                               * sint (BucketInterval (conf c))}
           \<and> sorted_wrt (\<lambda>a b. sint a < sint b) ks
           \<and> sb = map (\<lambda>ts. the (buckets c ts)) ks
           \<and> dom (buckets c') = dom (buckets c) - set ks
           \<and> (\<forall>ts. ts \<notin> set ks \<longrightarrow> buckets c' ts = buckets c ts)
           \<and> dom (buckets c') \<subseteq> dom (buckets c)"
proof -
  let ?w = "BucketInterval (conf c)" and ?cut = "OldestSpanCutoff (conf c)"
  let ?keys = "sortInts64 (mapKeys (buckets c))"
  from assms have now: "0 \<le> sint now" and cut: "0 \<le> sint ?cut" and w: "0 < sint ?w"
    by (simp_all add: word_sless_alt word_sle_eq)
  from sint_roundToBucket_nonneg [OF now w] obtain lastTs
    where r: "roundToBucket c now = Inr lastTs"
      and l: "sint lastTs = sint now - sint now mod sint ?w"
    by blast
  have l': "sint lastTs = (sint now div sint ?w) * sint ?w"
    unfolding l by (simp add: minus_mod_eq_div_mult)
  have d: "sint (now - ?cut) = sint now - sint ?cut"
    using now cut sint_range64 [of now] sint_range64 [of ?cut]
    by (intro sint_sub64) linarith+
  let ?P = "\<lambda>ts. ts <s now - ?cut \<and> ts <s lastTs"
  let ?ks = "filter ?P ?keys"
  let ?res = "flushKeys ops now lastTs ?keys ([], c)"
  note k = sortInts64_mapKeys [of "buckets c"]
  from k have sub: "set ?keys \<subseteq> dom (buckets c)" by simp
  note fk = flushKeys_result [OF k(2) sub refl, of ops now lastTs "[]"]
  have f: "Flush ops now c = Inr (fst ?res, snd ?res)"
    by (simp add: Flush_def r)
  have P: "?P ts = (sint ts < sint now - sint ?cut \<and> sint ts < (sint now div sint ?w) * sint ?w)"
    for ts
    by (simp add: word_sless_alt d l')
  have s: "set ?ks = {ts \<in> dom (buckets c).
                 sint ts < sint now - sint ?cut
                 \<and> sint ts < (sint now div sint ?w) * sint ?w}"
    using k(1) P by auto
  have o: "sorted_wrt (\<lambda>a b. sint a < sint b) ?ks"
    using k(3) k(2) by (rule sorted_wrt_sint_filter)
  have sb: "fst ?res = map (\<lambda>ts. the (buckets c ts)) ?ks"
    using fk by simp
  have bs: "buckets (snd ?res) = (\<lambda>ts. if ts \<in> set ?ks then None else buckets c ts)"
    using fk k(1) by (auto simp: fun_eq_iff)
  have dm: "dom (buckets (snd ?res)) = dom (buckets c) - set ?ks"
    unfolding bs by (auto split: if_splits)
  have keep: "\<forall>ts. ts \<notin> set ?ks \<longrightarrow> buckets (snd ?res) ts = buckets c ts"
    unfolding bs by simp
  from f s o sb dm keep show ?thesis by blast
qed

text \<open>
  At \<open>now = 1.5e18\<close> the three buckets that started more than sixty seconds ago are
  returned, oldest first, whatever the order of the keys in the map; the fourth stays.
\<close>

lemma keys_fourBuckets:
  "sortInts64 (mapKeys (buckets fourBuckets))
     = [1499999800000000000, 1499999810000000000, 1499999820000000000, 1499999990000000000]"
  by (simp add: fourBuckets_def sortInts64_def mapKeys_def)


lemma conf_fourBuckets:
  "BucketInterval (conf fourBuckets) = 10000000000"
  "OldestSpanCutoff (conf fourBuckets) = 60000000000"
  "statsd_calls fourBuckets = []"
  by (simp_all add: fourBuckets_def NewConcentrator_def tenSixty_def)

lemma Flush_fourBuckets:
  "Flush countingOps 1500000000000000000 fourBuckets
     = Inr ([1, 2, 3],
            fourBuckets
              \<lparr>buckets := [1499999990000000000 \<mapsto> 4],
               statsd_calls := [Histogram ''trace_agent.distribution.len'' 1,
                                Histogram ''trace_agent.distribution.len'' 2,
                                Histogram ''trace_agent.distribution.len'' 3]\<rparr>)"
proof -
  have r: "rem64 1500000000000000000 10000000000 = 0" by code_simp
  have l: "roundToBucket fourBuckets 1500000000000000000 = Inr 1500000000000000000"
    by (simp add: roundToBucket_def conf_fourBuckets r)
  have b: "buckets fourBuckets 1499999800000000000 = Some 1"
    "buckets fourBuckets 1499999810000000000 = Some 2"
    "buckets fourBuckets 1499999820000000000 = Some 3"
    "buckets fourBuckets 1499999990000000000 = Some 4"
    by (simp_all add: fourBuckets_def)
  show ?thesis
    unfolding Flush_def l keys_fourBuckets
    by (simp add: conf_fourBuckets b word_sless_alt countingOps_def fun_eq_iff)
       (simp add: fourBuckets_def)
qed

theorem Flush_result_witness:
  "(0 :: int64) \<le>s 1500000000000000000
   \<and> 0 \<le>s OldestSpanCutoff (conf fourBuckets)
   \<and> 0 <s BucketInterval (conf fourBuckets)
   \<and> Flush countingOps 1500000000000000000 fourBuckets
       = Inr ([1, 2, 3],
              fourBuckets
                \<lparr>buckets := [1499999990000000000 \<mapsto> 4],
                 statsd_calls := [Histogram ''trace_agent.distribution.len'' 1,
                                  Histogram ''trace_agent.distribution.len'' 2,
                                  Histogram ''trace_agent.distribution.len'' 3]\<rparr>)
   \<and> (\<exists>ks. sorted_wrt (\<lambda>a b. sint a < sint b) ks
          \<and> [1, 2, 3] = map (\<lambda>ts. the (buckets fourBuckets ts)) ks
          \<and> dom [1499999990000000000 \<mapsto> 4 :: nat] = dom (buckets fourBuckets) - set ks)"
proof -
  have a: "(0 :: int64) \<le>s 1500000000000000000"
    "0 \<le>s OldestSpanCutoff (conf fourBuckets)" "0 <s BucketInterval (conf fourBuckets)"
    by (simp_all add: conf_fourBuckets word_sless_alt word_sle_eq)
  from Flush_result [OF a, of countingOps] obtain sb c' ks
    where f: "Flush countingOps 1500000000000000000 fourBuckets = Inr (sb, c')"
      and o: "sorted_wrt (\<lambda>a b. sint a < sint b) ks"
      and m: "sb = map (\<lambda>ts. the (buckets fourBuckets ts)) ks"
      and d: "dom (buckets c') = dom (buckets fourBuckets) - set ks"
    by blast
  from f have "sb = [1, 2, 3]"
    "c' = fourBuckets
                \<lparr>buckets := [1499999990000000000 \<mapsto> 4],
                 statsd_calls := [Histogram ''trace_agent.distribution.len'' 1,
                                  Histogram ''trace_agent.distribution.len'' 2,
                                  Histogram ''trace_agent.distribution.len'' 3]\<rparr>"
    unfolding Flush_fourBuckets by simp_all
  with o m d have "\<exists>ks. sorted_wrt (\<lambda>a b. sint a < sint b) ks
          \<and> [1, 2, 3] = map (\<lambda>ts. the (buckets fourBuckets ts)) ks
          \<and> dom [1499999990000000000 \<mapsto> 4 :: nat] = dom (buckets fourBuckets) - set ks"
    by auto
  with a Flush_fourBuckets show ?thesis by blast
qed

section \<open>The sublayers of the nested trace\<close>














section \<open>Decay, eviction and bounds of the sampler backend\<close>

lemma DecayScore_scores:
  "scores (DecayScore m b) sig =
     (case scores b sig of None \<Rightarrow> None
      | Some v \<Rightarrow> if v > decayFactor b * m then Some (v / decayFactor b) else None)"
  by (simp add: DecayScore_def decayEntry_def split: option.splits)

lemma dom_DecayScore:
  "dom (scores (DecayScore m b)) = {sig \<in> dom (scores b). scoreOf (scores b) sig > decayFactor b * m}"
  by (auto simp: DecayScore_scores scoreOf_def split: option.splits if_splits)

text \<open>
  C4. After one \<open>DecayScore\<close>, on any backend: every signature still in the map was in
  it before and its score is the old one divided by \<open>decayFactor\<close>; \<open>totalScore\<close> and
  \<open>sampledScore\<close> are the old ones divided by \<open>decayFactor\<close>.
\<close>

theorem DecayScore_contraction:
  "(\<forall>sig \<in> dom (scores (DecayScore m b)).
      sig \<in> dom (scores b) \<and>
      scoreOf (scores (DecayScore m b)) sig = scoreOf (scores b) sig / decayFactor b)
   \<and> totalScore (DecayScore m b) = totalScore b / decayFactor b
   \<and> sampledScore (DecayScore m b) = sampledScore b / decayFactor b"
  by (auto simp: DecayScore_scores scoreOf_def split: option.splits if_splits)
     (simp_all add: DecayScore_def)

theorem DecayScore_contraction_witness:
  "3 \<in> dom (scores (DecayScore (1 / 100) (CountSignature (NewBackend 1000000000) 3)))
   \<and> scoreOf (scores (CountSignature (NewBackend 1000000000) 3)) 3 = 1
   \<and> scoreOf (scores (DecayScore (1 / 100) (CountSignature (NewBackend 1000000000) 3))) 3 = 8 / 9"
proof -
  have s: "3 \<in> dom (scores (DecayScore (1 / 100) (CountSignature (NewBackend 1000000000) 3)))"
    by (simp add: dom_DecayScore CountSignature_def NewBackend_def scoreOf_def)
  have v: "scoreOf (scores (CountSignature (NewBackend 1000000000) 3)) 3 = 1"
    "decayFactor (CountSignature (NewBackend 1000000000) 3) = 9 / 8"
    by (simp_all add: CountSignature_def NewBackend_def scoreOf_def)
  from DecayScore_contraction [of "1 / 100" "CountSignature (NewBackend 1000000000) 3"]
  have "\<forall>sig \<in> dom (scores (DecayScore (1 / 100) (CountSignature (NewBackend 1000000000) 3))).
      scoreOf (scores (DecayScore (1 / 100) (CountSignature (NewBackend 1000000000) 3))) sig
       = scoreOf (scores (CountSignature (NewBackend 1000000000) 3)) sig
         / decayFactor (CountSignature (NewBackend 1000000000) 3)"
    by blast
  from bspec [OF this s] show ?thesis using s v by simp
qed

text \<open>
  C6. \<open>DecayScore\<close> removes the entry of a signature exactly when its score before the
  call is \<open>\<le> decayFactor * minSignatureScoreOffset\<close>, which for a positive
  \<open>decayFactor\<close> says that the decayed score would be \<open>\<le> minSignatureScoreOffset\<close>.
  Afterwards \<open>GetCardinality\<close> counts the signatures that were not removed only, so it
  is smaller as soon as one entry has been removed.
\<close>

theorem DecayScore_eviction:
  "(\<forall>sig v. scores b sig = Some v \<longrightarrow>
      (scores (DecayScore m b) sig = None) = (v \<le> decayFactor b * m)
      \<and> (0 < decayFactor b \<longrightarrow> (v \<le> decayFactor b * m) = (v / decayFactor b \<le> m)))
   \<and> GetCardinality (DecayScore m b) =
       word_of_int (int (card {sig \<in> dom (scores b). \<not> scoreOf (scores b) sig \<le> decayFactor b * m}))
   \<and> (\<forall>sig. sig \<in> dom (scores b) \<and> sig \<notin> dom (scores (DecayScore m b))
        \<longrightarrow> card (dom (scores (DecayScore m b))) < card (dom (scores b)))"
proof (intro conjI allI impI)
  fix sig v assume "scores b sig = Some v"
  then show "(scores (DecayScore m b) sig = None) = (v \<le> decayFactor b * m)"
    by (auto simp: DecayScore_scores)
next
  fix sig v assume "scores b sig = Some v" "0 < decayFactor b"
  then show "(v \<le> decayFactor b * m) = (v / decayFactor b \<le> m)"
    by (simp add: pos_divide_le_eq mult.commute)
next
  have "{sig \<in> dom (scores b). \<not> scoreOf (scores b) sig \<le> decayFactor b * m}
        = dom (scores (DecayScore m b))"
    by (auto simp: dom_DecayScore)
  then show "GetCardinality (DecayScore m b) =
       word_of_int (int (card {sig \<in> dom (scores b). \<not> scoreOf (scores b) sig \<le> decayFactor b * m}))"
    by (simp add: GetCardinality_def)
next
  fix sig
  assume a: "sig \<in> dom (scores b) \<and> sig \<notin> dom (scores (DecayScore m b))"
  have "dom (scores (DecayScore m b)) \<subseteq> dom (scores b)" by (auto simp: dom_DecayScore)
  with a have "dom (scores (DecayScore m b)) \<subset> dom (scores b)" by blast
  with a show "card (dom (scores (DecayScore m b))) < card (dom (scores b))"
    by (simp add: psubset_card_mono)
qed

theorem DecayScore_eviction_witness:
  "scores (CountSignature (NewBackend 1000000000) 3) 3 = Some 1
   \<and> 0 < decayFactor (CountSignature (NewBackend 1000000000) 3)
   \<and> scores (DecayScore 1 (CountSignature (NewBackend 1000000000) 3)) 3 = None
   \<and> scores (DecayScore (1 / 100) (CountSignature (NewBackend 1000000000) 3)) 3 \<noteq> None
   \<and> card (dom (scores (DecayScore 1 (CountSignature (NewBackend 1000000000) 3))))
       < card (dom (scores (CountSignature (NewBackend 1000000000) 3)))"
proof -
  let ?b = "CountSignature (NewBackend 1000000000) 3"
  have v: "scores ?b 3 = Some 1" and f: "decayFactor ?b = 9 / 8" and d: "dom (scores ?b) = {3}"
    by (simp_all add: CountSignature_def NewBackend_def scoreOf_def)
  from DecayScore_eviction [of ?b 1] v
  have "(scores (DecayScore 1 ?b) 3 = None) = (1 \<le> decayFactor ?b * 1)" by blast
  then have e1: "scores (DecayScore 1 ?b) 3 = None" by (simp add: f)
  from DecayScore_eviction [of ?b "1 / 100"] v
  have "(scores (DecayScore (1 / 100) ?b) 3 = None) = (1 \<le> decayFactor ?b * (1 / 100))" by blast
  then have e2: "scores (DecayScore (1 / 100) ?b) 3 \<noteq> None" by (simp add: f)
  have "3 \<in> dom (scores ?b)" "3 \<notin> dom (scores (DecayScore 1 ?b))"
    using e1 by (simp_all add: d domIff)
  with DecayScore_eviction [of ?b 1]
  have "card (dom (scores (DecayScore 1 ?b))) < card (dom (scores ?b))" by blast
  then show ?thesis using v f e1 e2 by simp
qed

text \<open>
  C10. For a signature that the map does not hold, \<open>GetSignatureScore\<close> returns 0 and
  the backend as it was (the scale factor being non-zero). A new backend holds no
  signature; a signature that is absent stays absent through \<open>DecayScore\<close>,
  \<open>CountSample\<close> and \<open>CountSignature\<close> of another signature; and a signature that
  \<open>DecayScore\<close> evicts is absent afterwards, so its score reads 0.
\<close>

theorem GetSignatureScore_absent:
  "(scores b sig = None \<and> countScaleFactor b \<noteq> 0 \<longrightarrow> GetSignatureScore b sig = (0, b))
   \<and> scores (NewBackend d) sig = None
   \<and> (scores b sig = None \<longrightarrow>
        scores (DecayScore m b) sig = None \<and> scores (CountSample b) sig = None
        \<and> (sig' \<noteq> sig \<longrightarrow> scores (CountSignature b sig') sig = None))
   \<and> (\<forall>v. scores b sig = Some v \<and> v \<le> decayFactor b * m \<longrightarrow>
        scores (DecayScore m b) sig = None
        \<and> (countScaleFactor b \<noteq> 0 \<longrightarrow>
             GetSignatureScore (DecayScore m b) sig = (0, DecayScore m b)))"
  by (auto simp: GetSignatureScore_def scoreOf_def DecayScore_scores NewBackend_def
      CountSample_def CountSignature_def)

theorem GetSignatureScore_absent_witness:
  "scores (CountSignature (NewBackend 1000000000) 3) 4 = None
   \<and> countScaleFactor (CountSignature (NewBackend 1000000000) 3) = 9
   \<and> GetSignatureScore (CountSignature (NewBackend 1000000000) 3) 4
       = (0, CountSignature (NewBackend 1000000000) 3)
   \<and> scores (CountSignature (NewBackend 1000000000) 3) 3 = Some 1
   \<and> GetSignatureScore (DecayScore 1 (CountSignature (NewBackend 1000000000) 3)) 3
       = (0, DecayScore 1 (CountSignature (NewBackend 1000000000) 3))"
proof -
  let ?b = "CountSignature (NewBackend 1000000000) 3"
  have v: "scores ?b 4 = None" "countScaleFactor ?b = 9" "scores ?b 3 = Some 1"
    "decayFactor ?b = 9 / 8"
    by (simp_all add: CountSignature_def NewBackend_def scoreOf_def Seconds_def)
  from GetSignatureScore_absent [of ?b 4] v
  have "GetSignatureScore ?b 4 = (0, ?b)" by simp
  moreover from GetSignatureScore_absent [of ?b 3 _ 1] v
  have "GetSignatureScore (DecayScore 1 ?b) 3 = (0, DecayScore 1 ?b)" by simp
  ultimately show ?thesis using v by simp
qed

lemma reachable_inv:
  "reachable m d b \<Longrightarrow>
     decayFactor b = 9 / 8 \<and> countScaleFactor b = 9 * Seconds d \<and> decayPeriod b = d
     \<and> 0 \<le> sampledScore b \<and> 0 \<le> totalScore b
     \<and> (\<forall>sig v. scores b sig = Some v \<longrightarrow> 0 < v)"
proof (induction rule: reachable.induct)
  case reach_new
  show ?case by (simp add: NewBackend_def Let_def)
next
  case (reach_count b sig)
  then show ?case
    by (auto simp: CountSignature_def scoreOf_def split: option.splits) (smt (verit))+
next
  case (reach_sample b)
  then show ?case by (simp add: CountSample_def)
next
  case (reach_decay b)
  have "\<forall>sig v. scores (DecayScore m b) sig = Some v \<longrightarrow> 0 < v"
    using reach_decay by (auto simp: DecayScore_scores split: option.splits if_splits)
  then show ?case using reach_decay by (simp add: DecayScore_def)
next
  case (reach_stop b b')
  then show ?case by (auto simp: Stop_def split: if_splits)
qed

text \<open>
  C8. On every backend reachable from \<open>NewBackend period\<close> with a positive decay period,
  \<open>GetSampledScore() \<le> GetUpperSampledScore()\<close>.
\<close>

theorem upper_sampled_score:
  "reachable m d b \<Longrightarrow> 0 <s d \<Longrightarrow> GetSampledScore b \<le> GetUpperSampledScore b"
proof -
  assume r: "reachable m d b" and d: "0 <s d"
  from d have "0 < Seconds d" by (simp add: Seconds_def word_sless_alt del: of_int_sint)
  with reachable_inv [OF r] have nonneg: "0 \<le> GetSampledScore b"
    by (simp add: GetSampledScore_def)
  from reachable_inv [OF r] have f: "decayFactor b = 9 / 8" by simp
  show ?thesis unfolding GetUpperSampledScore_def f using nonneg by simp
qed

theorem upper_sampled_score_witness:
  "reachable (1 / 100) 1000000000 (DecayScore (1 / 100) (CountSample (NewBackend 1000000000)))
   \<and> (0 :: int64) <s 1000000000
   \<and> GetSampledScore (DecayScore (1 / 100) (CountSample (NewBackend 1000000000))) = 8 / 81
   \<and> GetUpperSampledScore (DecayScore (1 / 100) (CountSample (NewBackend 1000000000))) = 1 / 9
   \<and> GetSampledScore (DecayScore (1 / 100) (CountSample (NewBackend 1000000000)))
       \<le> GetUpperSampledScore (DecayScore (1 / 100) (CountSample (NewBackend 1000000000)))"
proof -
  have r: "reachable (1 / 100) 1000000000 (DecayScore (1 / 100) (CountSample (NewBackend 1000000000)))"
    by (intro reachable.intros)
  have d: "(0 :: int64) <s 1000000000" by (simp add: word_sless_alt)
  have v: "GetSampledScore (DecayScore (1 / 100) (CountSample (NewBackend 1000000000))) = 8 / 81"
    "GetUpperSampledScore (DecayScore (1 / 100) (CountSample (NewBackend 1000000000))) = 1 / 9"
    by (simp_all add: GetUpperSampledScore_def GetSampledScore_def DecayScore_def CountSample_def
        NewBackend_def Seconds_def)
  show ?thesis using r d v upper_sampled_score [OF r d] by simp
qed

text \<open>
  C9 as stated fails: the second of two calls of \<open>Stop\<close> on a new backend closes a
  closed channel, which panics.
\<close>

theorem StopTwice_panics:
  "StopTwice (NewBackend 1000000000) = Inl CloseOfClosedChannel"
  by (simp add: StopTwice_def Stop_def NewBackend_def)

text \<open>
  C9 (as amended). \<open>Stop\<close> is to be called at most once: on a backend whose exit channel
  is open (as it is after \<open>NewBackend\<close>) it closes the channel and changes nothing
  else; on a backend whose exit channel is closed, hence on a second call, it panics.
\<close>

theorem Stop_once:
  "\<not> exit_closed (NewBackend d)
   \<and> (\<not> exit_closed b \<longrightarrow>
        Stop b = Inr (b\<lparr>exit_closed := True\<rparr>)
        \<and> Stop (b\<lparr>exit_closed := True\<rparr>) = Inl CloseOfClosedChannel
        \<and> StopTwice b = Inl CloseOfClosedChannel)
   \<and> (exit_closed b \<longrightarrow> Stop b = Inl CloseOfClosedChannel)"
  by (simp add: StopTwice_def Stop_def NewBackend_def)

theorem Stop_once_witness:
  "\<not> exit_closed (NewBackend 1000000000)
   \<and> Stop (NewBackend 1000000000) = Inr ((NewBackend 1000000000)\<lparr>exit_closed := True\<rparr>)
   \<and> exit_closed ((NewBackend 1000000000)\<lparr>exit_closed := True\<rparr>)
   \<and> Stop ((NewBackend 1000000000)\<lparr>exit_closed := True\<rparr>) = Inl CloseOfClosedChannel"
  using Stop_once [of 1000000000 "NewBackend 1000000000"]
    Stop_once [of 1000000000 "(NewBackend 1000000000)\<lparr>exit_closed := True\<rparr>"]
  by simp

lemma decayTimes_Suc: "decayTimes (Suc n) m b = DecayScore m (decayTimes n m b)"
  by (simp add: decayTimes_def)

lemma decayTimes_0: "decayTimes 0 m b = b"
  by (simp add: decayTimes_def)

lemma pow_38: "(9 / 800 :: real) < (8 / 9) ^ 38"
  by (simp add: power_divide)

lemma pow_39: "(8 / 9 :: real) ^ 39 \<le> 9 / 800"
  by (simp add: power_divide)

lemma pow_40: "(8 / 9 :: real) ^ 40 = (8 / 9) ^ 39 * (8 / 9)"
proof -
  have "(40 :: nat) = Suc 39" by simp
  then show ?thesis by (simp only: power_Suc2)
qed

lemma decayTimes_counted_once:
  "k \<le> 39 \<Longrightarrow>
     decayTimes k (1 / 100) (CountSignature (NewBackend d) sig)
       = (NewBackend d)\<lparr>scores := [sig \<mapsto> (8 / 9) ^ k], totalScore := (8 / 9) ^ k\<rparr>"
proof (induction k)
  case 0
  show ?case by (simp add: decayTimes_0 CountSignature_def NewBackend_def scoreOf_def fun_eq_iff)
next
  case (Suc k)
  from Suc.prems have k: "k \<le> 38" by simp
  have "(8 / 9 :: real) ^ 38 \<le> (8 / 9) ^ k"
    using k by (intro power_decreasing) simp_all
  with pow_38 have big: "(9 / 800 :: real) < (8 / 9) ^ k" by linarith
  have ih: "decayTimes k (1 / 100) (CountSignature (NewBackend d) sig)
       = (NewBackend d)\<lparr>scores := [sig \<mapsto> (8 / 9) ^ k], totalScore := (8 / 9) ^ k\<rparr>"
    by (rule Suc.IH) (use k in simp)
  show ?case
    unfolding decayTimes_Suc ih using big
    by (simp add: DecayScore_def decayEntry_def NewBackend_def fun_eq_iff)
qed

text \<open>
  C5 fails on the code. With \<open>minSignatureScoreOffset = 0.01\<close>, count one signature on a
  new backend and decay 40 times: the 40th decay drops the entry, whose score
  \<open>(8/9)^39\<close> is below \<open>1.125 * 0.01\<close>, and the map is empty, its sum 0, while
  \<open>totalScore\<close> is \<open>(8/9)^40 > 0.005\<close>. The arithmetic is exact here, so the gap is
  not a rounding error.
\<close>

theorem total_score_exceeds_sum:
  "reachable (1 / 100) 1000000000 (decayTimes 40 (1 / 100) (CountSignature (NewBackend 1000000000) 1))
   \<and> scores (decayTimes 40 (1 / 100) (CountSignature (NewBackend 1000000000) 1)) = Map.empty
   \<and> sumScores (decayTimes 40 (1 / 100) (CountSignature (NewBackend 1000000000) 1)) = 0
   \<and> totalScore (decayTimes 40 (1 / 100) (CountSignature (NewBackend 1000000000) 1)) = (8 / 9) ^ 40
   \<and> (1 / 200 :: real) < (8 / 9) ^ 40"
proof -
  let ?b0 = "CountSignature (NewBackend 1000000000) 1"
  have r: "reachable (1 / 100) 1000000000 (decayTimes k (1 / 100) ?b0)" for k
    by (induction k) (auto simp: decayTimes_0 decayTimes_Suc intro: reachable.intros)
  have e39: "decayTimes 39 (1 / 100) ?b0
       = (NewBackend 1000000000)\<lparr>scores := [1 \<mapsto> (8 / 9) ^ 39], totalScore := (8 / 9) ^ 39\<rparr>"
    by (rule decayTimes_counted_once) simp
  have "decayTimes 40 (1 / 100) ?b0 = DecayScore (1 / 100) (decayTimes 39 (1 / 100) ?b0)"
    using decayTimes_Suc [of 39] by simp
  also have "\<dots> = (NewBackend 1000000000)\<lparr>scores := Map.empty, totalScore := (8 / 9) ^ 40\<rparr>"
    unfolding e39 pow_40 using pow_39
    by (simp add: DecayScore_def decayEntry_def NewBackend_def fun_eq_iff)
  finally have e40: "decayTimes 40 (1 / 100) ?b0
       = (NewBackend 1000000000)\<lparr>scores := Map.empty, totalScore := (8 / 9) ^ 40\<rparr>" .
  have "(1 / 200 :: real) < (8 / 9) ^ 40" by (simp add: power_divide)
  then show ?thesis using r [of 40] by (simp add: e40 sumScores_def)
qed

text \<open>
  The same happens whatever positive value the constant \<open>minSignatureScoreOffset\<close>
  has: a signature counted once is dropped after enough decays, and \<open>totalScore\<close>
  stays positive over the empty map.
\<close>

lemma decayTimes_counted_once_any:
  "totalScore (decayTimes n m (CountSignature (NewBackend d) sig)) = (8 / 9) ^ n
   \<and> decayFactor (decayTimes n m (CountSignature (NewBackend d) sig)) = 9 / 8
   \<and> (scores (decayTimes n m (CountSignature (NewBackend d) sig)) = Map.empty
      \<or> scores (decayTimes n m (CountSignature (NewBackend d) sig)) = [sig \<mapsto> (8 / 9) ^ n])"
proof (induction n)
  case 0
  show ?case
    by (simp add: decayTimes_0 CountSignature_def NewBackend_def scoreOf_def)
next
  case (Suc n)
  let ?b = "decayTimes n m (CountSignature (NewBackend d) sig)"
  from Suc.IH have t: "totalScore ?b = (8 / 9) ^ n" and f: "decayFactor ?b = 9 / 8"
    and s: "scores ?b = Map.empty \<or> scores ?b = [sig \<mapsto> (8 / 9) ^ n]"
    by blast+
  have "totalScore (DecayScore m ?b) = (8 / 9) ^ Suc n"
    "decayFactor (DecayScore m ?b) = 9 / 8"
    by (simp_all add: DecayScore_def t f)
  moreover have "scores (DecayScore m ?b) = Map.empty
      \<or> scores (DecayScore m ?b) = [sig \<mapsto> (8 / 9) ^ Suc n]"
  proof (cases "scores ?b = Map.empty")
    case True
    then show ?thesis by (simp add: DecayScore_scores fun_eq_iff)
  next
    case False
    with s have v: "scores ?b = [sig \<mapsto> (8 / 9) ^ n]" by blast
    show ?thesis
    proof (cases "9 / 8 * m < (8 / 9 :: real) ^ n")
      case True
      then have "scores (DecayScore m ?b) = [sig \<mapsto> (8 / 9) ^ Suc n]"
        by (simp add: DecayScore_scores fun_eq_iff f v)
      then show ?thesis ..
    next
      case False
      then have "scores (DecayScore m ?b) = Map.empty"
        by (simp add: DecayScore_scores fun_eq_iff f v)
      then show ?thesis ..
    qed
  qed
  ultimately show ?case unfolding decayTimes_Suc by blast
qed

lemma total_score_exceeds_sum_any_offset:
  assumes "0 < m"
  shows "\<exists>n. scores (decayTimes n m (CountSignature (NewBackend d) sig)) = Map.empty
             \<and> sumScores (decayTimes n m (CountSignature (NewBackend d) sig)) = 0
             \<and> 0 < totalScore (decayTimes n m (CountSignature (NewBackend d) sig))"
proof -
  let ?b = "\<lambda>n. decayTimes n m (CountSignature (NewBackend d) sig)"
  from real_arch_pow_inv [OF assms, of "8 / 9"] obtain n where n: "(8 / 9 :: real) ^ n < m"
    by auto
  note k = decayTimes_counted_once_any [of n m d sig]
  have "scores (?b n) = Map.empty \<or> scores (?b (Suc n)) = Map.empty"
  proof (cases "scores (?b n) = Map.empty")
    case True
    then show ?thesis by simp
  next
    case False
    with k have s: "scores (?b n) = [sig \<mapsto> (8 / 9) ^ n]" by blast
    from k have f: "decayFactor (?b n) = 9 / 8" by blast
    from n assms have "\<not> 9 / 8 * m < (8 / 9 :: real) ^ n" by simp
    then have "scores (DecayScore m (?b n)) = Map.empty"
      by (simp add: DecayScore_scores fun_eq_iff f s)
    then show ?thesis by (simp add: decayTimes_Suc)
  qed
  then obtain j where j: "scores (?b j) = Map.empty" by blast
  have "0 < totalScore (?b j)"
    using decayTimes_counted_once_any [of j m d sig] by simp
  with j show ?thesis by (auto simp: sumScores_def)
qed

text \<open>
  What does hold: \<open>CountSignature\<close> adds 1 to both \<open>totalScore\<close> and the sum of the
  scores, and a \<open>DecayScore\<close> that drops no entry divides both by \<open>decayFactor\<close>, so
  the two only part when an entry is dropped.
\<close>

lemma CountSignature_keeps_gap:
  "totalScore (CountSignature b sig) - sumScores (CountSignature b sig)
     = totalScore b - sumScores b"
proof -
  have fin: "finite (dom (scores b))" by simp
  have d: "dom (scores (CountSignature b sig)) = insert sig (dom (scores b))"
    by (simp add: CountSignature_def)
  have o: "scoreOf (scores (CountSignature b sig)) x = scoreOf (scores b) x"
    if "x \<noteq> sig" for x
    using that by (simp add: CountSignature_def scoreOf_def)
  have n: "scoreOf (scores (CountSignature b sig)) sig = scoreOf (scores b) sig + 1"
    by (simp add: CountSignature_def scoreOf_def)
  have z: "sig \<notin> dom (scores b) \<Longrightarrow> scoreOf (scores b) sig = 0"
    by (auto simp: scoreOf_def split: option.splits)
  have s1: "sumScores (CountSignature b sig)
      = scoreOf (scores (CountSignature b sig)) sig
        + (\<Sum>x \<in> dom (scores b) - {sig}. scoreOf (scores (CountSignature b sig)) x)"
    unfolding sumScores_def d by (simp add: sum.insert_remove)
  have s2: "(\<Sum>x \<in> dom (scores b) - {sig}. scoreOf (scores (CountSignature b sig)) x)
      = (\<Sum>x \<in> dom (scores b) - {sig}. scoreOf (scores b) x)"
    by (intro sum.cong) (simp_all add: o)
  have s3: "scoreOf (scores b) sig + (\<Sum>x \<in> dom (scores b) - {sig}. scoreOf (scores b) x)
      = sumScores b"
  proof (cases "sig \<in> dom (scores b)")
    case True
    then show ?thesis unfolding sumScores_def by (simp add: sum.remove [of _ sig])
  next
    case False
    then show ?thesis unfolding sumScores_def by (simp add: z)
  qed
  have "sumScores (CountSignature b sig) = sumScores b + 1"
    unfolding s1 s2 n using s3 by simp
  then show ?thesis by (simp add: CountSignature_def)
qed

lemma DecayScore_keeps_sum_without_eviction:
  assumes "\<forall>sig v. scores b sig = Some v \<longrightarrow> decayFactor b * m < v"
    and "totalScore b = sumScores b"
  shows "totalScore (DecayScore m b) = sumScores (DecayScore m b)"
proof -
  have d: "dom (scores (DecayScore m b)) = dom (scores b)"
    using assms(1) by (auto simp: DecayScore_scores split: option.splits if_splits)
  have "scoreOf (scores (DecayScore m b)) x = scoreOf (scores b) x / decayFactor b"
    if "x \<in> dom (scores b)" for x
    using that assms(1) by (auto simp: DecayScore_scores scoreOf_def)
  then have "sumScores (DecayScore m b) = (\<Sum>x \<in> dom (scores b). scoreOf (scores b) x / decayFactor b)"
    unfolding sumScores_def d by (intro sum.cong) simp_all
  also have "\<dots> = sumScores b / decayFactor b"
    by (simp add: sumScores_def sum_divide_distrib)
  finally show ?thesis using assms(2) by (simp add: DecayScore_def)
qed

end
